theory Spec2Isabelle
  imports Main
begin

section \<open>Values, keys and time\<close>

text \<open>
  Keys are Go strings. A cached value has the Go type \<^verbatim>\<open>interface{}\<close>: it is either
  the nil interface or some proper value. The nil interface is a legal value to store, and
  it is also what the map hands back together with \<^verbatim>\<open>false\<close> when a key is absent.
\<close>

type_synonym key = string

datatype 'a any = nil | Val 'a

text \<open>
  A \<^verbatim>\<open>time.Duration\<close> is a signed count of nanoseconds, so a ttl may be zero or
  negative. Instants of the runtime clock are counted in the same unit, as unbounded
  integers: the runtime keeps a deadline that would not fit into 64 bits at the largest
  instant, which the clock does not reach either.
\<close>

type_synonym duration = int
type_synonym instant = int

definition Millisecond :: duration where
  "Millisecond = 1000000"

section \<open>The storage: \<^verbatim>\<open>sync.Map\<close>\<close>

text \<open>
  The cache keeps its entries in a \<^verbatim>\<open>sync.Map\<close> of the Go standard library, with
  keys that are always strings. Each method the cache calls is given with the effect the
  library documents for it, one call at a time; a method that changes the map returns the
  new map. \<^verbatim>\<open>Delete\<close> is \<^verbatim>\<open>LoadAndDelete\<close> with the result dropped, as in the
  library.
\<close>

type_synonym 'a syncmap = "key \<rightharpoonup> 'a any"

definition Load :: "'a syncmap \<Rightarrow> key \<Rightarrow> 'a any \<times> bool" where
  "Load m k = (case m k of None \<Rightarrow> (nil, False) | Some v \<Rightarrow> (v, True))"

definition Store :: "'a syncmap \<Rightarrow> key \<Rightarrow> 'a any \<Rightarrow> 'a syncmap" where
  "Store m k v = m(k \<mapsto> v)"

definition LoadOrStore :: "'a syncmap \<Rightarrow> key \<Rightarrow> 'a any \<Rightarrow> ('a any \<times> bool) \<times> 'a syncmap" where
  "LoadOrStore m k v =
     (case m k of None \<Rightarrow> ((v, False), m(k \<mapsto> v)) | Some u \<Rightarrow> ((u, True), m))"

definition LoadAndDelete :: "'a syncmap \<Rightarrow> key \<Rightarrow> ('a any \<times> bool) \<times> 'a syncmap" where
  "LoadAndDelete m k =
     (case m k of None \<Rightarrow> ((nil, False), m) | Some v \<Rightarrow> ((v, True), m(k := None)))"

definition Delete :: "'a syncmap \<Rightarrow> key \<Rightarrow> 'a syncmap" where
  "Delete m k = snd (LoadAndDelete m k)"

definition Clear :: "'a syncmap \<Rightarrow> 'a syncmap" where
  "Clear m = Map.empty"

section \<open>The cache and the timers of the runtime\<close>

text \<open>
  \<^verbatim>\<open>MemoryCache\<close> is a struct with the single field \<^verbatim>\<open>storage\<close>. The expiration
  actions are not part of the struct: \<^verbatim>\<open>time.AfterFunc(ttl, f)\<close> hands the closure
  \<^verbatim>\<open>f\<close> to the runtime, which calls it once the duration has elapsed. Every closure the
  cache creates is \<^verbatim>\<open>func() { mc.storage.Delete(key) }\<close>, so a pending timer is fully
  described by the instant at which it is due and the key it has captured. The state of
  the program is the cache, the pending timers in the order in which they were armed, and
  the clock.
\<close>

record 'a MemoryCache =
  storage :: "'a syncmap"

record timer =
  fires_at :: instant
  target :: key

record 'a world =
  mc :: "'a MemoryCache"
  timers :: "timer list"
  now :: instant

definition NewMemoryCache :: "'a MemoryCache" where
  "NewMemoryCache = \<lparr>storage = Map.empty\<rparr>"

definition boot :: "'a world" where
  "boot = \<lparr>mc = NewMemoryCache, timers = [], now = 0\<rparr>"

text \<open>
  \<^verbatim>\<open>time.AfterFunc(d, f)\<close>: the timer is due \<open>d\<close> after the call; a duration that
  is not positive makes it due at once. Nothing is returned to the caller that the cache
  keeps, so no timer can be stopped later.
\<close>

definition deadline :: "instant \<Rightarrow> duration \<Rightarrow> instant" where
  "deadline t d = (if d \<le> 0 then t else t + d)"

definition AfterFunc :: "duration \<Rightarrow> key \<Rightarrow> 'a world \<Rightarrow> 'a world" where
  "AfterFunc d k w = w\<lparr>timers := timers w @ [\<lparr>fires_at = deadline (now w) d, target = k\<rparr>]\<rparr>"

text \<open>The body of the closure, run by the runtime when a timer fires.\<close>

definition fire :: "timer \<Rightarrow> 'a MemoryCache \<Rightarrow> 'a MemoryCache" where
  "fire tm c = c\<lparr>storage := Delete (storage c) (target tm)\<rparr>"

text \<open>
  The runtime runs closures between the calls of the cache. \<open>run_closures P\<close> runs the
  closure of every pending timer that satisfies \<open>P\<close>, earliest first, and takes these
  timers off the list; the others stay pending.
\<close>

definition run_closures :: "(timer \<Rightarrow> bool) \<Rightarrow> 'a world \<Rightarrow> 'a world" where
  "run_closures P w =
     \<lparr>mc = fold fire (sort_key fires_at (filter P (timers w))) (mc w),
      timers = filter (\<lambda>tm. \<not> P tm) (timers w),
      now = now w\<rparr>"

text \<open>
  The caller waits for the duration \<open>d\<close>, as with \<^verbatim>\<open>time.Sleep(d)\<close>. A duration
  that is not positive returns at once: no time passes and no closure runs. Otherwise the
  clock moves on by \<open>d\<close>, and the closures that have run when the caller goes on are
  those of the timers whose instant lies before the instant of waking.

  A timer whose instant is the very instant at which the caller goes on (one due exactly
  at the end of the wait, or one armed just now with a ttl that is not positive) is in a
  race with the caller: its closure runs in a goroutine of its own, before or after the
  caller's next call. \<open>elapse\<close> leaves such a timer pending, and \<open>settle\<close> is the other
  outcome of the race, in which the closures of all timers that are due have run. A timer
  left pending this way is run by \<open>settle\<close> or by the next wait.
\<close>

definition due :: "instant \<Rightarrow> timer \<Rightarrow> bool" where
  "due t tm = (fires_at tm < t)"

definition elapse :: "duration \<Rightarrow> 'a world \<Rightarrow> 'a world" where
  "elapse d w =
     (if d \<le> 0 then w
      else (run_closures (due (now w + d)) w)\<lparr>now := now w + d\<rparr>)"

definition settle :: "'a world \<Rightarrow> 'a world" where
  "settle w = run_closures (\<lambda>tm. fires_at tm \<le> now w) w"

section \<open>The operations of the cache\<close>

definition Set :: "key \<Rightarrow> 'a any \<Rightarrow> duration \<Rightarrow> 'a world \<Rightarrow> 'a world" where
  "Set k v ttl w =
     AfterFunc ttl k (w\<lparr>mc := (mc w)\<lparr>storage := Store (storage (mc w)) k v\<rparr>\<rparr>)"

definition GetOrSet :: "key \<Rightarrow> 'a any \<Rightarrow> duration \<Rightarrow> 'a world \<Rightarrow> ('a any \<times> bool) \<times> 'a world" where
  "GetOrSet k v ttl w =
     (let ((val, loaded), m) = LoadOrStore (storage (mc w)) k v;
          w1 = w\<lparr>mc := (mc w)\<lparr>storage := m\<rparr>\<rparr>;
          w2 = (if \<not> loaded then AfterFunc ttl k w1 else w1)
      in ((val, loaded), w2))"

definition Get :: "key \<Rightarrow> 'a world \<Rightarrow> ('a any \<times> bool) \<times> 'a world" where
  "Get k w = (Load (storage (mc w)) k, w)"

definition Expire :: "key \<Rightarrow> 'a world \<Rightarrow> ('a any \<times> bool) \<times> 'a world" where
  "Expire k w =
     (let (r, m) = LoadAndDelete (storage (mc w)) k
      in (r, w\<lparr>mc := (mc w)\<lparr>storage := m\<rparr>\<rparr>))"

definition Refresh :: "key \<Rightarrow> duration \<Rightarrow> 'a world \<Rightarrow> bool \<times> 'a world" where
  "Refresh k ttl w =
     (let ((v, ok), w1) = Get k w
      in if ok then (True, Set k v ttl w1) else (False, w1))"

definition ExpireAll :: "'a world \<Rightarrow> 'a world" where
  "ExpireAll w = w\<lparr>mc := (mc w)\<lparr>storage := Clear (storage (mc w))\<rparr>\<rparr>"

section \<open>Sequences of calls\<close>

text \<open>
  A client, like the \<^verbatim>\<open>main\<close> function of the program, calls the cache again and
  again and sleeps in between; \<open>Yield\<close> is a point at which the closures that are due
  get to run before the client goes on. The results of the calls are dropped here; only
  the state they leave behind is followed.
\<close>

datatype 'a call =
    CallSet key "'a any" duration
  | CallGetOrSet key "'a any" duration
  | CallGet key
  | CallExpire key
  | CallRefresh key duration
  | CallExpireAll
  | Sleep duration
  | Yield

fun exec :: "'a call \<Rightarrow> 'a world \<Rightarrow> 'a world" where
  "exec (CallSet k v ttl) w = Set k v ttl w"
| "exec (CallGetOrSet k v ttl) w = snd (GetOrSet k v ttl w)"
| "exec (CallGet k) w = snd (Get k w)"
| "exec (CallExpire k) w = snd (Expire k w)"
| "exec (CallRefresh k ttl) w = snd (Refresh k ttl w)"
| "exec CallExpireAll w = ExpireAll w"
| "exec (Sleep d) w = elapse d w"
| "exec Yield w = settle w"

definition run :: "'a call list \<Rightarrow> 'a world \<Rightarrow> 'a world" where
  "run cs w = fold exec cs w"

text \<open>The calls that store a value under the key when it is absent.\<close>

fun sets_key :: "key \<Rightarrow> 'a call \<Rightarrow> bool" where
  "sets_key k (CallSet k' v ttl) = (k' = k)"
| "sets_key k (CallGetOrSet k' v ttl) = (k' = k)"
| "sets_key k c = False"

section \<open>Basic facts\<close>

lemmas eval_defs =
  Get_def Load_def Set_def Store_def AfterFunc_def GetOrSet_def LoadOrStore_def
  Expire_def LoadAndDelete_def Refresh_def ExpireAll_def Clear_def elapse_def due_def
  run_closures_def settle_def
  fire_def Delete_def deadline_def Millisecond_def boot_def NewMemoryCache_def Let_def

lemma Delete_eq: "Delete m k = m(k := None)"
  by (auto simp: Delete_def LoadAndDelete_def split: option.splits)

lemma world_eqI:
  fixes w w' :: "'a world"
  assumes "storage (mc w) = storage (mc w')" and "timers w = timers w'" and "now w = now w'"
  shows "w = w'"
  using assms by (cases w, cases w') auto

subsection \<open>\<^verbatim>\<open>Set\<close>\<close>

lemma storage_Set: "storage (mc (Set k v ttl w)) = (storage (mc w))(k \<mapsto> v)"
  by (simp add: Set_def AfterFunc_def Store_def)

lemma timers_Set:
  "timers (Set k v ttl w) = timers w @ [\<lparr>fires_at = deadline (now w) ttl, target = k\<rparr>]"
  by (simp add: Set_def AfterFunc_def)

lemma now_Set: "now (Set k v ttl w) = now w"
  by (simp add: Set_def AfterFunc_def)

subsection \<open>Time passing\<close>

text \<open>
  Every closure only deletes its key, so what a batch of timers leaves behind does not
  depend on the order in which they run.
\<close>

lemma storage_fold_fire:
  "storage (fold fire tms c) k = (if k \<in> target ` set tms then None else storage c k)"
  by (induction tms arbitrary: c) (auto simp: fire_def Delete_eq)

lemma storage_run_closures:
  "storage (mc (run_closures P w)) k =
     (if \<exists>tm \<in> set (timers w). target tm = k \<and> P tm then None else storage (mc w) k)"
  by (auto simp: run_closures_def storage_fold_fire)

lemma timers_run_closures: "timers (run_closures P w) = filter (\<lambda>tm. \<not> P tm) (timers w)"
  by (simp add: run_closures_def)

lemma storage_elapse:
  "storage (mc (elapse d w)) k =
     (if 0 < d \<and> (\<exists>tm \<in> set (timers w). target tm = k \<and> fires_at tm < now w + d)
      then None else storage (mc w) k)"
  by (auto simp: elapse_def storage_run_closures due_def)

lemma timers_elapse:
  "timers (elapse d w) = filter (\<lambda>tm. \<not> (0 < d \<and> fires_at tm < now w + d)) (timers w)"
  by (simp add: elapse_def timers_run_closures due_def)

lemma now_elapse: "now (elapse d w) = now w + max 0 d"
  by (simp add: elapse_def run_closures_def)

lemma storage_settle:
  "storage (mc (settle w)) k =
     (if \<exists>tm \<in> set (timers w). target tm = k \<and> fires_at tm \<le> now w
      then None else storage (mc w) k)"
  by (simp add: settle_def storage_run_closures)

lemma timers_settle: "timers (settle w) = filter (\<lambda>tm. now w < fires_at tm) (timers w)"
  by (simp add: settle_def timers_run_closures not_le)

lemma now_settle: "now (settle w) = now w"
  by (simp add: settle_def run_closures_def)

text \<open>Waiting twice is waiting once for the sum: no timer is lost or run again.\<close>

lemma elapse_add:
  assumes "0 \<le> d1" and "0 \<le> d2"
  shows "elapse (d1 + d2) w = elapse d2 (elapse d1 w)"
proof (rule world_eqI)
  show "storage (mc (elapse (d1 + d2) w)) = storage (mc (elapse d2 (elapse d1 w)))"
    using assms by (auto simp: storage_elapse timers_elapse now_elapse fun_eq_iff add.assoc)
  show "timers (elapse (d1 + d2) w) = timers (elapse d2 (elapse d1 w))"
    using assms by (auto simp: timers_elapse now_elapse add.assoc intro: filter_cong)
  show "now (elapse (d1 + d2) w) = now (elapse d2 (elapse d1 w))"
    using assms by (simp add: now_elapse)
qed

subsection \<open>The two branches of each operation\<close>

lemma GetOrSet_absent:
  "storage (mc w) k = None \<Longrightarrow> GetOrSet k v ttl w = ((v, False), Set k v ttl w)"
  by (simp add: GetOrSet_def LoadOrStore_def Set_def Store_def)

lemma GetOrSet_present:
  "storage (mc w) k = Some u \<Longrightarrow> GetOrSet k v ttl w = ((u, True), w)"
  by (simp add: GetOrSet_def LoadOrStore_def)

lemma Expire_absent: "storage (mc w) k = None \<Longrightarrow> Expire k w = ((nil, False), w)"
  by (simp add: Expire_def LoadAndDelete_def)

lemma Expire_present:
  "storage (mc w) k = Some v \<Longrightarrow>
   Expire k w = ((v, True), w\<lparr>mc := (mc w)\<lparr>storage := (storage (mc w))(k := None)\<rparr>\<rparr>)"
  by (simp add: Expire_def LoadAndDelete_def)

lemma Refresh_absent: "storage (mc w) k = None \<Longrightarrow> Refresh k ttl w = (False, w)"
  by (simp add: Refresh_def Get_def Load_def)

lemma Refresh_present:
  "storage (mc w) k = Some v \<Longrightarrow> Refresh k ttl w = (True, Set k v ttl w)"
  by (simp add: Refresh_def Get_def Load_def)

subsection \<open>Other keys\<close>

lemma storage_GetOrSet_other:
  "k' \<noteq> k \<Longrightarrow> storage (mc (snd (GetOrSet k v ttl w))) k' = storage (mc w) k'"
  by (cases "storage (mc w) k") (simp_all add: GetOrSet_absent GetOrSet_present storage_Set)

lemma storage_Expire_other:
  "k' \<noteq> k \<Longrightarrow> storage (mc (snd (Expire k w))) k' = storage (mc w) k'"
  by (cases "storage (mc w) k") (simp_all add: Expire_absent Expire_present)

lemma storage_Refresh_other:
  "k' \<noteq> k \<Longrightarrow> storage (mc (snd (Refresh k ttl w))) k' = storage (mc w) k'"
  by (cases "storage (mc w) k") (simp_all add: Refresh_absent Refresh_present storage_Set)

subsection \<open>A key that is never written stays absent\<close>

lemma storage_exec_absent:
  assumes "\<not> sets_key k c" and "storage (mc w) k = None"
  shows "storage (mc (exec c w)) k = None"
proof (cases c)
  case (CallSet k' v ttl)
  with assms show ?thesis by (simp add: storage_Set)
next
  case (CallGetOrSet k' v ttl)
  with assms show ?thesis by (simp add: storage_GetOrSet_other)
next
  case (CallGet k')
  with assms show ?thesis by (simp add: Get_def)
next
  case (CallExpire k')
  with assms show ?thesis
    by (cases "storage (mc w) k'") (auto simp: Expire_absent Expire_present)
next
  case (CallRefresh k' ttl)
  with assms show ?thesis
    by (cases "k' = k") (simp_all add: Refresh_absent storage_Refresh_other)
next
  case CallExpireAll
  then show ?thesis by (simp add: ExpireAll_def Clear_def)
next
  case (Sleep d)
  with assms show ?thesis by (simp add: storage_elapse)
next
  case Yield
  with assms show ?thesis by (simp add: storage_settle)
qed

lemma storage_run_absent:
  "\<not> list_ex (sets_key k) cs \<Longrightarrow> storage (mc w) k = None \<Longrightarrow>
   storage (mc (run cs w)) k = None"
  unfolding run_def
  by (induction cs arbitrary: w) (simp_all add: storage_exec_absent)

section \<open>Reading back what was written\<close>

text \<open>
  Claim C1. For every key, value and ttl, a \<^verbatim>\<open>Get\<close> of the key that follows the
  \<^verbatim>\<open>Set\<close> directly, with no other call in between, returns the value just written
  together with \<^verbatim>\<open>true\<close>. The same holds when time passes in between, as long as it is
  less than the ttl and no expiration action armed earlier for the key comes due in it.
\<close>

theorem Set_then_Get:
  "fst (Get k (Set k v ttl w)) = (v, True)
   \<and> (0 < ttl \<and> d < ttl
        \<and> \<not> list_ex (\<lambda>tm. target tm = k \<and> fires_at tm \<le> now w + max 0 d) (timers w) \<longrightarrow>
        fst (Get k (elapse d (Set k v ttl w))) = (v, True))"
proof (intro conjI impI)
  show "fst (Get k (Set k v ttl w)) = (v, True)"
    by (simp add: Get_def Load_def storage_Set)
next
  assume a: "0 < ttl \<and> d < ttl
    \<and> \<not> list_ex (\<lambda>tm. target tm = k \<and> fires_at tm \<le> now w + max 0 d) (timers w)"
  then have "\<not> deadline (now w) ttl \<le> now w + max 0 d"
    by (simp add: deadline_def max_def)
  with a have "storage (mc (elapse d (Set k v ttl w))) k = Some v"
    by (auto simp: storage_elapse timers_Set now_Set storage_Set list_ex_iff)
  then show "fst (Get k (elapse d (Set k v ttl w))) = (v, True)"
    by (simp add: Get_def Load_def)
qed

theorem Set_then_Get_witness:
  "(0::int) < 200 * Millisecond \<and> 199 * Millisecond < 200 * Millisecond
   \<and> \<not> list_ex (\<lambda>tm. target tm = ''A''
          \<and> fires_at tm \<le> now (boot :: int world) + max 0 (199 * Millisecond))
        (timers (boot :: int world))
   \<and> fst (Get ''A'' (Set ''A'' (Val 1) (200 * Millisecond) (boot :: int world))) = (Val 1, True)
   \<and> fst (Get ''A'' (elapse (199 * Millisecond)
        (Set ''A'' (Val 1) (200 * Millisecond) (boot :: int world)))) = (Val 1, True)"
  using Set_then_Get [of "''A''" "Val 1" "200 * Millisecond" "boot :: int world"
      "199 * Millisecond"]
  by (simp add: Millisecond_def boot_def NewMemoryCache_def)

section \<open>Expiration\<close>

text \<open>
  Claim C2. After a key is overwritten, its lifetime should follow the ttl of the latest
  write: with \<^verbatim>\<open>Set("A", 1, 200ms)\<close>, then \<^verbatim>\<open>Set("A", 2, 200ms)\<close> at 50ms, a
  \<^verbatim>\<open>Get("A")\<close> at 220ms should return \<^verbatim>\<open>(2, true)\<close>. The program does not behave
  so. Run on exactly this scenario, it answers \<^verbatim>\<open>(nil, false)\<close> at 220ms: the
  expiration armed by the first write has run at 200ms and removed the second value,
  whose own expiration is still pending for 250ms.
\<close>

theorem overwrite_cut_short:
  "fst (Get ''A'' (run [CallSet ''A'' (Val 1) (200 * Millisecond), Sleep (50 * Millisecond),
                        CallSet ''A'' (Val 2) (200 * Millisecond), Sleep (170 * Millisecond)]
                       (boot :: int world)))
     = (nil, False)
   \<and> now (run [CallSet ''A'' (Val 1) (200 * Millisecond), Sleep (50 * Millisecond),
                CallSet ''A'' (Val 2) (200 * Millisecond), Sleep (170 * Millisecond)]
               (boot :: int world))
     = 220 * Millisecond
   \<and> timers (run [CallSet ''A'' (Val 1) (200 * Millisecond), Sleep (50 * Millisecond),
                   CallSet ''A'' (Val 2) (200 * Millisecond), Sleep (170 * Millisecond)]
                  (boot :: int world))
     = [\<lparr>fires_at = 250 * Millisecond, target = ''A''\<rparr>]"
  by (simp add: run_def Get_def Load_def storage_elapse timers_elapse timers_Set now_Set
      now_elapse storage_Set deadline_def Millisecond_def boot_def NewMemoryCache_def)


text \<open>
  Claim C3. An expiration action is armed by \<^verbatim>\<open>Set\<close> and by the inserting branch of
  \<^verbatim>\<open>GetOrSet\<close>: the pending timers are the earlier ones, all kept, followed by one new
  timer for the key. The new timer has not run after any wait shorter than a positive ttl,
  whichever way a race at the end of the wait goes; after a wait longer than the ttl it is
  gone and the key is absent. A wait adds no timer, keeps every timer whose instant it has
  not reached, and takes away every timer whose instant lies before its end. Such a timer
  removes whatever is stored under its key, also when the key has just been written again
  or refreshed with another ttl.
\<close>

theorem expiration_action:
  fixes w :: "'a world"
  shows
  "timers (Set k v ttl w) = timers w @ [\<lparr>fires_at = deadline (now w) ttl, target = k\<rparr>]
   \<and> (storage (mc w) k = None \<longrightarrow>
        timers (snd (GetOrSet k v ttl w))
          = timers w @ [\<lparr>fires_at = deadline (now w) ttl, target = k\<rparr>])
   \<and> (0 < ttl \<and> d < ttl \<longrightarrow>
        \<lparr>fires_at = deadline (now w) ttl, target = k\<rparr>
          \<in> set (timers (elapse d (Set k v ttl w)))
        \<and> \<lparr>fires_at = deadline (now w) ttl, target = k\<rparr>
          \<in> set (timers (settle (elapse d (Set k v ttl w)))))
   \<and> (0 < d \<and> ttl < d \<longrightarrow>
        \<lparr>fires_at = deadline (now w) ttl, target = k\<rparr>
          \<notin> set (timers (elapse d (Set k v ttl w)))
        \<and> storage (mc (elapse d (Set k v ttl w))) k = None)
   \<and> set (timers (elapse d w)) \<subseteq> set (timers w)
   \<and> (tm \<in> set (timers w) \<and> now w + max 0 d < fires_at tm \<longrightarrow>
        tm \<in> set (timers (elapse d w)))
   \<and> (tm \<in> set (timers w) \<and> 0 < d \<and> fires_at tm < now w + d \<longrightarrow>
        tm \<notin> set (timers (elapse d w))
        \<and> storage (mc (elapse d w)) (target tm) = None
        \<and> storage (mc (elapse d (Set (target tm) v' ttl' w))) (target tm) = None
        \<and> storage (mc (elapse d (snd (Refresh (target tm) ttl' w)))) (target tm) = None)"
proof (intro conjI impI)
  show "timers (Set k v ttl w) = timers w @ [\<lparr>fires_at = deadline (now w) ttl, target = k\<rparr>]"
    by (rule timers_Set)
  show "timers (snd (GetOrSet k v ttl w))
      = timers w @ [\<lparr>fires_at = deadline (now w) ttl, target = k\<rparr>]"
    if "storage (mc w) k = None"
    using that by (simp add: GetOrSet_absent timers_Set)
  show "set (timers (elapse d w)) \<subseteq> set (timers w)"
    by (auto simp: timers_elapse)
  show "tm \<in> set (timers (elapse d w))"
    if "tm \<in> set (timers w) \<and> now w + max 0 d < fires_at tm"
    using that by (auto simp: timers_elapse)
next
  assume early: "0 < ttl \<and> d < ttl"
  then show "\<lparr>fires_at = deadline (now w) ttl, target = k\<rparr>
      \<in> set (timers (elapse d (Set k v ttl w)))"
    by (simp add: timers_elapse timers_Set now_Set deadline_def)
  from early show "\<lparr>fires_at = deadline (now w) ttl, target = k\<rparr>
      \<in> set (timers (settle (elapse d (Set k v ttl w))))"
    by (simp add: timers_settle timers_elapse now_elapse timers_Set now_Set deadline_def)
next
  assume late: "0 < d \<and> ttl < d"
  then have passed: "deadline (now w) ttl < now w + d"
    by (simp add: deadline_def)
  with late show "\<lparr>fires_at = deadline (now w) ttl, target = k\<rparr>
      \<notin> set (timers (elapse d (Set k v ttl w)))"
    by (simp add: timers_elapse now_Set)
  from late passed show "storage (mc (elapse d (Set k v ttl w))) k = None"
    by (simp add: storage_elapse timers_Set now_Set)
next
  assume pending: "tm \<in> set (timers w) \<and> 0 < d \<and> fires_at tm < now w + d"
  then show "tm \<notin> set (timers (elapse d w))"
    by (simp add: timers_elapse)
  from pending show "storage (mc (elapse d w)) (target tm) = None"
    by (auto simp: storage_elapse)
  from pending show "storage (mc (elapse d (Set (target tm) v' ttl' w))) (target tm) = None"
    by (auto simp: storage_elapse timers_Set now_Set)
  from pending
  show "storage (mc (elapse d (snd (Refresh (target tm) ttl' w)))) (target tm) = None"
    by (cases "storage (mc w) (target tm)")
       (auto simp: Refresh_absent Refresh_present storage_elapse timers_Set now_Set)
qed

theorem expiration_action_witness:
  "storage (mc (Set ''A'' (Val (1::int)) 200 boot)) ''B'' = None
   \<and> timers (snd (GetOrSet ''B'' (Val 7) 300 (Set ''A'' (Val (1::int)) 200 boot)))
       = [\<lparr>fires_at = 200, target = ''A''\<rparr>, \<lparr>fires_at = 300, target = ''B''\<rparr>]
   \<and> \<lparr>fires_at = 200, target = ''A''\<rparr> \<in> set (timers (Set ''A'' (Val (1::int)) 200 boot))
   \<and> now (Set ''A'' (Val (1::int)) 200 boot) + max 0 100
       < fires_at \<lparr>fires_at = 200, target = ''A''\<rparr>
   \<and> \<lparr>fires_at = 200, target = ''A''\<rparr>
       \<in> set (timers (elapse 100 (Set ''A'' (Val (1::int)) 200 boot)))
   \<and> (0::int) < 250
   \<and> fires_at \<lparr>fires_at = 200, target = ''A''\<rparr>
       < now (Set ''A'' (Val (1::int)) 200 boot) + 250
   \<and> \<lparr>fires_at = 200, target = ''A''\<rparr>
       \<notin> set (timers (elapse 250 (Set ''A'' (Val (1::int)) 200 boot)))
   \<and> storage (mc (elapse 250 (Set ''A'' (Val 2) 1000 (Set ''A'' (Val (1::int)) 200 boot)))) ''A''
       = None
   \<and> storage (mc (elapse 250 (snd (Refresh ''A'' 1000 (Set ''A'' (Val (1::int)) 200 boot))))) ''A''
       = None
   \<and> (0::int) < 300 \<and> (250::int) < 300
   \<and> \<lparr>fires_at = 300, target = ''B''\<rparr>
       \<in> set (timers (elapse 250 (Set ''B'' (Val 7) 300 (Set ''A'' (Val (1::int)) 200 boot))))
   \<and> \<lparr>fires_at = 300, target = ''B''\<rparr>
       \<in> set (timers (settle (elapse 250
            (Set ''B'' (Val 7) 300 (Set ''A'' (Val (1::int)) 200 boot)))))
   \<and> (0::int) < 350 \<and> (300::int) < 350
   \<and> \<lparr>fires_at = 300, target = ''B''\<rparr>
       \<notin> set (timers (elapse 350 (Set ''B'' (Val 7) 300 (Set ''A'' (Val (1::int)) 200 boot))))
   \<and> storage (mc (elapse 350 (Set ''B'' (Val 7) 300 (Set ''A'' (Val (1::int)) 200 boot)))) ''B''
       = None"
  using expiration_action [of "''B''" "Val 7" 300 "Set ''A'' (Val (1::int)) 200 boot" 100
      "\<lparr>fires_at = 200, target = ''A''\<rparr>" "Val 2" 1000]
    expiration_action [of "''B''" "Val 7" 300 "Set ''A'' (Val (1::int)) 200 boot" 250
      "\<lparr>fires_at = 200, target = ''A''\<rparr>" "Val 2" 1000]
    expiration_action [of "''B''" "Val 7" 300 "Set ''A'' (Val (1::int)) 200 boot" 350
      "\<lparr>fires_at = 200, target = ''A''\<rparr>" "Val 2" 1000]
  by (simp add: eval_defs)

section \<open>The results of the operations\<close>

text \<open>
  Claim C4. \<^verbatim>\<open>GetOrSet\<close> on an absent key stores the given value, arms one expiration
  action and returns the value with \<^verbatim>\<open>false\<close>. A second \<^verbatim>\<open>GetOrSet\<close> on the key,
  with any other value and ttl, returns the first value with \<^verbatim>\<open>true\<close> and changes
  nothing: the stored value and the pending timers are as the first call left them.
\<close>

theorem GetOrSet_absent_then_present:
  assumes "storage (mc w) k = None"
  shows "fst (GetOrSet k v1 ttl w) = (v1, False)
    \<and> storage (mc (snd (GetOrSet k v1 ttl w))) k = Some v1
    \<and> timers (snd (GetOrSet k v1 ttl w))
        = timers w @ [\<lparr>fires_at = deadline (now w) ttl, target = k\<rparr>]
    \<and> fst (GetOrSet k v2 ttl' (snd (GetOrSet k v1 ttl w))) = (v1, True)
    \<and> snd (GetOrSet k v2 ttl' (snd (GetOrSet k v1 ttl w))) = snd (GetOrSet k v1 ttl w)"
proof -
  have first: "GetOrSet k v1 ttl w = ((v1, False), Set k v1 ttl w)"
    using assms by (rule GetOrSet_absent)
  have "storage (mc (Set k v1 ttl w)) k = Some v1"
    by (simp add: storage_Set)
  then have second: "GetOrSet k v2 ttl' (Set k v1 ttl w) = ((v1, True), Set k v1 ttl w)"
    by (rule GetOrSet_present)
  show ?thesis
    by (simp add: first second storage_Set timers_Set)
qed

theorem GetOrSet_absent_then_present_witness:
  "storage (mc (boot :: int world)) ''Spock'' = None
   \<and> fst (GetOrSet ''Spock'' (Val (1::int)) 300 boot) = (Val 1, False)
   \<and> fst (GetOrSet ''Spock'' (Val 2) 300 (snd (GetOrSet ''Spock'' (Val (1::int)) 300 boot)))
       = (Val 1, True)
   \<and> timers (snd (GetOrSet ''Spock'' (Val 2) 300
        (snd (GetOrSet ''Spock'' (Val (1::int)) 300 boot))))
       = [\<lparr>fires_at = 300, target = ''Spock''\<rparr>]"
  using GetOrSet_absent_then_present
    [of "boot :: int world" "''Spock''" "Val 1" 300 "Val 2" 300]
  by (simp add: eval_defs)

text \<open>
  Claim C5. \<^verbatim>\<open>Expire\<close> on a present key returns the stored value with \<^verbatim>\<open>true\<close>,
  whatever timers are pending, and a \<^verbatim>\<open>Get\<close> right after it finds the key absent.
  On an absent key it returns \<^verbatim>\<open>(nil, false)\<close> and changes nothing.
\<close>

theorem Expire_removes:
  "(storage (mc w) k = Some v \<longrightarrow>
      fst (Expire k w) = (v, True)
      \<and> fst (Get k (snd (Expire k w))) = (nil, False)
      \<and> timers (snd (Expire k w)) = timers w)
   \<and> (storage (mc w) k = None \<longrightarrow> Expire k w = ((nil, False), w))"
proof (cases "storage (mc w) k")
  case None
  then show ?thesis
    by (simp add: Expire_absent)
next
  case (Some u)
  then have "Expire k w
      = ((u, True), w\<lparr>mc := (mc w)\<lparr>storage := (storage (mc w))(k := None)\<rparr>\<rparr>)"
    by (rule Expire_present)
  with Some show ?thesis
    by (simp add: Get_def Load_def)
qed

theorem Expire_removes_witness:
  "storage (mc (Set ''UltimateAnswer'' (Val (42::int)) (300000 * Millisecond) boot))
       ''UltimateAnswer'' = Some (Val 42)
   \<and> fst (Expire ''UltimateAnswer''
        (Set ''UltimateAnswer'' (Val (42::int)) (300000 * Millisecond) boot)) = (Val 42, True)
   \<and> fst (Get ''UltimateAnswer'' (snd (Expire ''UltimateAnswer''
        (Set ''UltimateAnswer'' (Val (42::int)) (300000 * Millisecond) boot)))) = (nil, False)
   \<and> storage (mc (boot :: int world)) ''UltimateAnswer'' = None
   \<and> Expire ''UltimateAnswer'' (boot :: int world) = ((nil, False), boot)"
  using Expire_removes [of "Set ''UltimateAnswer'' (Val (42::int)) (300000 * Millisecond) boot"
      "''UltimateAnswer''" "Val 42"]
    Expire_removes [of "boot :: int world" "''UltimateAnswer''" "Val 42"]
  by (simp add: storage_Set boot_def NewMemoryCache_def)

text \<open>
  Claim C6. \<^verbatim>\<open>Refresh\<close> on an absent key returns \<^verbatim>\<open>false\<close> and changes nothing:
  the store and the pending timers are as before. On a present key it returns
  \<^verbatim>\<open>true\<close> and does what \<^verbatim>\<open>Set\<close> does with the current value and the new ttl:
  the store holds the same values, and one new timer is armed after the earlier ones.
\<close>

theorem Refresh_effect:
  "(storage (mc w) k = None \<longrightarrow> Refresh k ttl w = (False, w))
   \<and> (storage (mc w) k = Some v \<longrightarrow>
        Refresh k ttl w = (True, Set k v ttl w)
        \<and> storage (mc (snd (Refresh k ttl w))) = storage (mc w)
        \<and> timers (snd (Refresh k ttl w))
            = timers w @ [\<lparr>fires_at = deadline (now w) ttl, target = k\<rparr>])"
proof (intro conjI impI)
  show "Refresh k ttl w = (False, w)" if "storage (mc w) k = None"
    using that by (rule Refresh_absent)
next
  assume present: "storage (mc w) k = Some v"
  then show same: "Refresh k ttl w = (True, Set k v ttl w)"
    by (rule Refresh_present)
  from present have "(storage (mc w))(k \<mapsto> v) = storage (mc w)"
    by (simp add: fun_upd_idem)
  then show "storage (mc (snd (Refresh k ttl w))) = storage (mc w)"
    by (simp add: same storage_Set)
  show "timers (snd (Refresh k ttl w))
      = timers w @ [\<lparr>fires_at = deadline (now w) ttl, target = k\<rparr>]"
    by (simp add: same timers_Set)
qed

theorem Refresh_effect_witness:
  "storage (mc (boot :: int world)) ''A'' = None
   \<and> Refresh ''A'' 500 (boot :: int world) = (False, boot)
   \<and> storage (mc (Set ''A'' (Val (1::int)) 200 boot)) ''A'' = Some (Val 1)
   \<and> fst (Refresh ''A'' 500 (Set ''A'' (Val (1::int)) 200 boot)) = True
   \<and> timers (snd (Refresh ''A'' 500 (Set ''A'' (Val (1::int)) 200 boot)))
       = [\<lparr>fires_at = 200, target = ''A''\<rparr>, \<lparr>fires_at = 500, target = ''A''\<rparr>]"
  using Refresh_effect [of "boot :: int world" "''A''" 500 "Val 1"]
    Refresh_effect [of "Set ''A'' (Val (1::int)) 200 boot" "''A''" 500 "Val 1"]
  by (simp add: storage_Set timers_Set now_Set deadline_def boot_def NewMemoryCache_def)

text \<open>
  Claim C7. After \<^verbatim>\<open>ExpireAll\<close> the cache is empty: \<^verbatim>\<open>Get\<close> returns
  \<^verbatim>\<open>(nil, false)\<close> for every key, whatever was set before.
\<close>

theorem ExpireAll_empties:
  "fst (Get k (ExpireAll w)) = (nil, False) \<and> storage (mc (ExpireAll w)) = Map.empty"
  by (simp add: Get_def Load_def ExpireAll_def Clear_def)

text \<open>
  Claim C8. \<^verbatim>\<open>Get\<close> is a pure read: the state after it, with the store and the
  pending timers, is the state before it. On a key that no call has ever set, in any
  sequence of calls, waits and closure runs on a new cache, it returns
  \<^verbatim>\<open>(nil, false)\<close>; so it does on a key that was set and whose ttl lies within the
  time waited since.
\<close>

theorem Get_pure_read:
  fixes w :: "'a world" and cs :: "'a call list"
  shows "snd (Get k w) = w
   \<and> (\<not> list_ex (sets_key k) cs \<longrightarrow> fst (Get k (run cs boot)) = (nil, False))
   \<and> (0 < d \<and> ttl < d \<longrightarrow> fst (Get k (elapse d (Set k v ttl w))) = (nil, False))"
proof (intro conjI impI)
  show "snd (Get k w) = w"
    by (simp add: Get_def)
  show "fst (Get k (run cs boot)) = (nil, False)" if "\<not> list_ex (sets_key k) cs"
  proof -
    have "storage (mc (boot :: 'a world)) k = None"
      by (simp add: boot_def NewMemoryCache_def)
    with that have "storage (mc (run cs (boot :: 'a world))) k = None"
      by (rule storage_run_absent)
    then show ?thesis
      by (simp add: Get_def Load_def)
  qed
  show "fst (Get k (elapse d (Set k v ttl w))) = (nil, False)" if "0 < d \<and> ttl < d"
  proof -
    from that have "deadline (now w) ttl < now w + d"
      by (simp add: deadline_def)
    with that have "storage (mc (elapse d (Set k v ttl w))) k = None"
      by (simp add: storage_elapse timers_Set now_Set)
    then show ?thesis
      by (simp add: Get_def Load_def)
  qed
qed

theorem Get_pure_read_witness:
  "\<not> list_ex (sets_key ''A'')
       [CallSet ''B'' (Val (1::int)) 100, CallRefresh ''A'' 100, CallGet ''A'', Sleep 150, Yield]
   \<and> fst (Get ''A'' (run [CallSet ''B'' (Val (1::int)) 100, CallRefresh ''A'' 100,
                            CallGet ''A'', Sleep 150, Yield] boot)) = (nil, False)
   \<and> 0 < 150 * Millisecond \<and> 100 * Millisecond < 150 * Millisecond
   \<and> fst (Get ''A'' (elapse (150 * Millisecond)
        (Set ''A'' (Val (1::int)) (100 * Millisecond) boot))) = (nil, False)"
  using Get_pure_read [of "''A''" "boot :: int world"
      "[CallSet ''B'' (Val (1::int)) 100, CallRefresh ''A'' 100, CallGet ''A'', Sleep 150, Yield]"
      "150 * Millisecond" "100 * Millisecond" "Val 1"]
  by (simp add: Millisecond_def)



section \<open>Other keys\<close>

text \<open>
  Claim C10. \<^verbatim>\<open>Set\<close>, \<^verbatim>\<open>Get\<close>, \<^verbatim>\<open>GetOrSet\<close>, \<^verbatim>\<open>Expire\<close> and \<^verbatim>\<open>Refresh\<close>
  on a key leave what is stored under every other key as it was. \<^verbatim>\<open>ExpireAll\<close> is the
  operation that reaches further: it removes the other key as well.
\<close>

theorem other_keys_untouched:
  assumes "k' \<noteq> k"
  shows "storage (mc (Set k v ttl w)) k' = storage (mc w) k'
    \<and> storage (mc (snd (Get k w))) k' = storage (mc w) k'
    \<and> storage (mc (snd (GetOrSet k v ttl w))) k' = storage (mc w) k'
    \<and> storage (mc (snd (Expire k w))) k' = storage (mc w) k'
    \<and> storage (mc (snd (Refresh k ttl w))) k' = storage (mc w) k'
    \<and> storage (mc (ExpireAll w)) k' = None \<and> storage (mc (ExpireAll w)) k = None"
  using assms
  by (simp add: storage_Set Get_def storage_GetOrSet_other storage_Expire_other
      storage_Refresh_other ExpireAll_def Clear_def)

theorem other_keys_untouched_witness:
  "''Spock'' \<noteq> ''UltimateAnswer''
   \<and> storage (mc (Set ''UltimateAnswer'' (Val 42) 9 (Set ''Spock'' (Val (1::int)) 5 boot)))
       ''Spock'' = Some (Val 1)
   \<and> storage (mc (snd (Expire ''UltimateAnswer''
        (Set ''UltimateAnswer'' (Val 42) 9 (Set ''Spock'' (Val (1::int)) 5 boot))))) ''Spock''
       = Some (Val 1)
   \<and> storage (mc (ExpireAll
        (Set ''UltimateAnswer'' (Val 42) 9 (Set ''Spock'' (Val (1::int)) 5 boot)))) ''Spock''
       = None"
  using other_keys_untouched [of "''Spock''" "''UltimateAnswer''" "Val 42" 9
      "Set ''Spock'' (Val (1::int)) 5 boot"]
    other_keys_untouched [of "''Spock''" "''UltimateAnswer''" "Val 42" 9
      "Set ''UltimateAnswer'' (Val 42) 9 (Set ''Spock'' (Val (1::int)) 5 boot)"]
  by (simp add: storage_Set)

end
